theory Spec2Isabelle
  imports Main "HOL-Library.Multiset"
begin

section \<open>Go values and the libraries the module calls\<close>

text \<open>
  A Go \<open>error\<close> is identified with the text its \<open>Error()\<close> method returns; a nil error
  is \<open>None\<close> of \<open>error option\<close>. Formatting an error with \<open>%v\<close> or \<open>%w\<close> yields that text.
\<close>

datatype error = Error string

fun Error_text :: "error \<Rightarrow> string" where
  "Error_text (Error s) = s"

text \<open>
  The functions of packages outside the repository (layeh.com/radius, net, time, fmt) are
  parameters of the model, collected in one record. Each field has the shape of the Go
  function, reduced to the results the module reads:
  \<^item> \<open>UserName_SetString username\<close> and \<open>UserPassword_SetString secret password\<close>: the error
    returned when the attribute is set on the Access-Request packet;
  \<^item> \<open>ParseDuration s\<close>: \<open>time.ParseDuration\<close>, the duration in nanoseconds and the error;
  \<^item> \<open>SplitHostPort s\<close>: \<open>net.SplitHostPort\<close>, host, port and the error;
  \<^item> \<open>ParseIP host\<close>: whether \<open>net.ParseIP\<close> returns a non-nil address;
  \<^item> \<open>Code_String c\<close>: the text \<open>%v\<close> prints for a \<open>radius.Code\<close>;
  \<^item> \<open>Errorf_text f\<close>: the text of the error \<open>fmt.Errorf(f)\<close> builds from the format
    string \<open>f\<close> when it is given no operands.
\<close>

record lib =
  UserName_SetString :: "string \<Rightarrow> error option"
  UserPassword_SetString :: "string \<Rightarrow> string \<Rightarrow> error option"
  ParseDuration :: "string \<Rightarrow> int \<times> error option"
  SplitHostPort :: "string \<Rightarrow> string \<times> string \<times> error option"
  ParseIP :: "string \<Rightarrow> bool"
  Code_String :: "int \<Rightarrow> string"
  Errorf_text :: "string \<Rightarrow> string"

text \<open>The RADIUS codes of RFC 2865 that the module names.\<close>

definition CodeAccessRequest :: int where
  "CodeAccessRequest = 1"

definition CodeAccessAccept :: int where
  "CodeAccessAccept = 2"

definition CodeAccessReject :: int where
  "CodeAccessReject = 3"

section \<open>The verdict cache\<close>

text \<open>
  Modelled from the spec: the cache behind the field \<open>cache\<close> is the package
  github.com/patrickmn/go-cache, which is not part of the sources. The spec (4.1) describes
  it: an entry maps a key to a boolean verdict with an expiration time; \<open>store\<close> inserts
  or overwrites the entry and resets its expiration to now plus the configured TTL;
  \<open>lookup\<close> has no side effect and excludes entries older than the TTL. Times and
  durations are nanoseconds.
\<close>

record Item =
  Object :: bool
  Expiration :: int

record Cache =
  defaultExpiration :: int
  items :: "string \<rightharpoonup> Item"

text \<open>
  Modelled from the spec: \<open>cache.New(ttl, interval)\<close>, an empty cache with the
  configured TTL. The periodic reclamation of expired entries only bounds memory and is
  not modelled.
\<close>

definition cache_New :: "int \<Rightarrow> Cache" where
  "cache_New ttl = \<lparr>defaultExpiration = ttl, items = Map.empty\<rparr>"

text \<open>
  Modelled from the spec: \<open>lookup\<close> (\<open>Get\<close>) at the time \<open>now\<close>. An entry whose
  expiration lies before \<open>now\<close> is treated as absent.
\<close>

definition cache_Get :: "Cache \<Rightarrow> int \<Rightarrow> string \<Rightarrow> bool option" where
  "cache_Get c now k =
     (case items c k of
        None \<Rightarrow> None
      | Some item \<Rightarrow> if now > Expiration item then None else Some (Object item))"

text \<open>
  Modelled from the spec: \<open>store\<close> (\<open>SetDefault\<close>) at the time \<open>now\<close>. It inserts or
  overwrites the entry; its expiration becomes \<open>now\<close> plus the TTL.
\<close>

definition cache_SetDefault :: "Cache \<Rightarrow> int \<Rightarrow> string \<Rightarrow> bool \<Rightarrow> Cache" where
  "cache_SetDefault c now k v =
     c\<lparr>items := (items c)(k \<mapsto> \<lparr>Object = v, Expiration = now + defaultExpiration c\<rparr>)\<rparr>"

section \<open>The module's configuration\<close>

text \<open>
  The struct \<open>HTTPRadiusAuth\<close>. The field \<open>cache\<close> is a pointer: \<open>None\<close> is nil. The
  logger is written by \<open>Provision\<close> and never read; it is left out.
\<close>

record HTTPRadiusAuth =
  Servers :: "string list"
  Secret :: string
  Realm :: string
  Timeout :: string
  CacheTTL :: string
  cache :: "Cache option"

section \<open>radius.go: checkRadiusConcurrent\<close>

text \<open>The Access-Request packet, by the inputs it is built from.\<close>

record packet =
  pkt_Code :: int
  pkt_Secret :: string
  pkt_UserName :: string
  pkt_UserPassword :: string

text \<open>What \<open>radius.Exchange\<close> returns: a response with its code, or an error.\<close>

datatype exchange = Response int | Failed error

text \<open>The struct \<open>result\<close> each goroutine sends on the channel.\<close>

record result =
  code :: int
  err :: "error option"
  server :: string

text \<open>One call of \<open>radius.Exchange\<close>: the server, the deadline's timeout and the packet.\<close>

record dispatch =
  srv :: string
  deadline :: int
  sent :: packet

text \<open>
  What one call of \<open>checkRadiusConcurrent\<close> meets outside the program:
  \<^item> \<open>Exchange i\<close> is what \<open>radius.Exchange\<close> returns in the goroutine started for the
    \<open>i\<close>-th entry of \<open>Servers\<close>;
  \<^item> \<open>arrival\<close> are the scheduler's choices: they fix the order in which the goroutines'
    results reach the channel (see \<open>arrivalOrder\<close>);
  \<^item> \<open>rangeOrder\<close> is the order in which \<open>range serverResults\<close> visits the keys of the
    map; Go leaves it unspecified and visits every key once;
  \<^item> \<open>now_Get\<close> and \<open>now_Set\<close> are the clock when \<open>Authenticate\<close> looks the key up in
    the cache and when it stores the verdict.
\<close>

record world =
  Exchange :: "nat \<Rightarrow> exchange"
  arrival :: "nat list"
  rangeOrder :: "string list"
  now_Get :: int
  now_Set :: int

text \<open>The body of the goroutine, from the result of \<open>radius.Exchange\<close> on.\<close>

definition goroutine :: "string \<Rightarrow> exchange \<Rightarrow> result" where
  "goroutine s x =
     (case x of
        Failed e \<Rightarrow> \<lparr>code = 0, err = Some e, server = s\<rparr>
      | Response c \<Rightarrow> \<lparr>code = c, err = None, server = s\<rparr>)"

text \<open>
  The goroutines send one result each on a channel with room for all of them; the receiving
  loop sees them in some order. Every choice \<open>c\<close> takes one of the results still pending
  (the one at position \<open>c mod n\<close> of the \<open>n\<close> pending); when the choices run out the rest
  arrives in the order the goroutines were started.
\<close>

fun arrivalOrder :: "nat list \<Rightarrow> 'a list \<Rightarrow> 'a list" where
  "arrivalOrder [] xs = xs"
| "arrivalOrder (c # cs) xs =
     (if xs = [] then []
      else let i = c mod length xs
           in xs ! i # arrivalOrder cs (take i xs @ drop (Suc i) xs))"

text \<open>The state of the receiving loop \<open>for res := range ch\<close> and its body.\<close>

record collected =
  hasAccessAccept :: bool
  hasReject :: bool
  serverResults :: "string \<rightharpoonup> int \<times> error option"

definition receive :: "collected \<Rightarrow> result \<Rightarrow> collected" where
  "receive st res =
     (let st1 = st\<lparr>serverResults := (serverResults st)(server res \<mapsto> (code res, err res))\<rparr>
      in if code res = CodeAccessAccept then st1\<lparr>hasAccessAccept := True\<rparr>
         else if code res = CodeAccessReject then st1\<lparr>hasReject := True\<rparr>
         else st1)"

fun collect :: "collected \<Rightarrow> result list \<Rightarrow> collected" where
  "collect st [] = st"
| "collect st (res # ch) = collect (receive st res) ch"

text \<open>The text appended to \<open>errorMsg\<close> for one entry of \<open>serverResults\<close>.\<close>

definition issue :: "lib \<Rightarrow> string \<Rightarrow> int \<times> error option \<Rightarrow> string" where
  "issue L s res =
     (case snd res of
        Some e \<Rightarrow> s @ '' error: '' @ Error_text e @ ''; ''
      | None \<Rightarrow>
          if fst res \<noteq> 0 then s @ '' returned unknown code: '' @ Code_String L (fst res) @ ''; ''
          else s @ '': no response; '')"

text \<open>
  The loop \<open>for server, result := range serverResults\<close>, visiting the keys in the
  order \<open>ks\<close>. The loop only meets keys of the map: a string of \<open>ks\<close> that is no key is
  passed over.
\<close>

fun rangeIssues :: "lib \<Rightarrow> (string \<rightharpoonup> int \<times> error option) \<Rightarrow> string list \<Rightarrow> string \<Rightarrow> string" where
  "rangeIssues L m [] errorMsg = errorMsg"
| "rangeIssues L m (k # ks) errorMsg =
     (case m k of
        None \<Rightarrow> rangeIssues L m ks errorMsg
      | Some res \<Rightarrow> rangeIssues L m ks (errorMsg @ issue L k res))"

text \<open>The results on the channel, in the order the goroutines were started.\<close>

definition spawned :: "HTTPRadiusAuth \<Rightarrow> world \<Rightarrow> result list" where
  "spawned r W = map (\<lambda>(i, s). goroutine s (Exchange W i)) (enumerate 0 (Servers r))"

text \<open>
  \<open>checkRadiusConcurrent\<close> returns the pair \<open>(bool, error)\<close> of the Go function and, beside
  it, the calls of \<open>radius.Exchange\<close> it made (one per goroutine, listed in the order
  the goroutines were started).
\<close>

definition checkRadiusConcurrent ::
    "lib \<Rightarrow> HTTPRadiusAuth \<Rightarrow> world \<Rightarrow> string \<Rightarrow> string \<Rightarrow> (bool \<times> error option) \<times> dispatch list" where
  "checkRadiusConcurrent L r W username password =
     (if length (Servers r) = 0 then ((False, Some (Error ''no RADIUS servers configured'')), [])
      else case UserName_SetString L username of
        Some e \<Rightarrow>
          ((False, Some (Error (''rfc2865: setting username string error: '' @ Error_text e))), [])
      | None \<Rightarrow>
        (case UserPassword_SetString L (Secret r) password of
           Some e \<Rightarrow>
             ((False, Some (Error (''rfc2865: setting password string error: '' @ Error_text e))), [])
         | None \<Rightarrow>
           (let pkt = \<lparr>pkt_Code = CodeAccessRequest, pkt_Secret = Secret r,
                       pkt_UserName = username, pkt_UserPassword = password\<rparr>;
                timeout = fst (ParseDuration L (Timeout r));
                calls = map (\<lambda>s. \<lparr>srv = s, deadline = timeout, sent = pkt\<rparr>) (Servers r);
                ch = arrivalOrder (arrival W) (spawned r W);
                st = collect \<lparr>hasAccessAccept = False, hasReject = False,
                              serverResults = Map.empty\<rparr> ch
            in if hasAccessAccept st then ((True, None), calls)
               else if hasReject st then ((False, None), calls)
               else ((False,
                      Some (Error (Errorf_text L
                        (rangeIssues L (serverResults st) (rangeOrder W)
                           ''RADIUS authentication issues: '')))),
                     calls))))"

section \<open>caddyfile.go, the module: Provision, isValidServerAddr, Authenticate\<close>

definition isValidServerAddr :: "lib \<Rightarrow> string \<Rightarrow> bool" where
  "isValidServerAddr L addr =
     (let (host, port, e) = SplitHostPort L addr
      in if e \<noteq> None \<or> host = '''' \<or> port = '''' then False
         else if \<not> ParseIP L host \<and> CHR '' '' \<in> set host then False
         else True)"

text \<open>
  The validation loop of \<open>Provision\<close>: the valid addresses, and the lines printed for the
  skipped ones.
\<close>

fun validate :: "lib \<Rightarrow> string list \<Rightarrow> string list \<times> string list" where
  "validate L [] = ([], [])"
| "validate L (s # ss) =
     (let (valid, printed) = validate L ss
      in if isValidServerAddr L s then (s # valid, printed)
         else (valid, (''[caddy-radius] skipped invalid RADIUS server: '' @ s @ [CHR 0x0A]) # printed))"

text \<open>
  \<open>Provision\<close> works on the struct through a pointer: the result holds the struct as the
  call leaves it, the lines written to standard output, and the error returned.
\<close>

definition Provision :: "lib \<Rightarrow> HTTPRadiusAuth \<Rightarrow> HTTPRadiusAuth \<times> string list \<times> error option" where
  "Provision L r =
     (if length (Servers r) = 0 then (r, [], Some (Error ''no RADIUS servers configured''))
      else if Secret r = '''' then (r, [], Some (Error ''missing RADIUS shared secret''))
      else
        let r1 = (if Timeout r = '''' then r\<lparr>Timeout := ''3s''\<rparr> else r);
            r2 = (if CacheTTL r1 = '''' then r1\<lparr>CacheTTL := ''0s''\<rparr> else r1);
            (cacheTTL, e) = ParseDuration L (CacheTTL r2)
        in case e of
             Some e' \<Rightarrow> (r2, [], Some (Error (''invalid cache_ttl duration: '' @ Error_text e')))
           | None \<Rightarrow>
               let r3 = (if cacheTTL > 0 then r2\<lparr>cache := Some (cache_New cacheTTL)\<rparr>
                         else r2\<lparr>cache := None\<rparr>);
                   (valid, printed) = validate L (Servers r3);
                   r4 = r3\<lparr>Servers := valid\<rparr>
               in if length (Servers r4) = 0
                  then (r4, printed, Some (Error ''no valid RADIUS servers remain after validation''))
                  else (r4, printed, None))"

text \<open>What a call does to the \<open>http.ResponseWriter\<close>.\<close>

datatype http_effect = Header_Set string string | http_Error string nat

text \<open>
  \<open>promptForCredentials\<close> returns the value \<open>(caddyauth.User, bool, error)\<close>, the user by
  its ID, and the response writer after the call.
\<close>

definition promptForCredentials ::
    "HTTPRadiusAuth \<Rightarrow> http_effect list \<Rightarrow> error option \<Rightarrow> (string \<times> bool \<times> error option) \<times> http_effect list" where
  "promptForCredentials r w e =
     (let realm = (if Realm r = '''' then ''restricted'' else Realm r)
      in (('''', False, e),
          w @ [Header_Set ''WWW-Authenticate'' (''Basic realm='' @ [CHR 0x22] @ realm @ [CHR 0x22])]))"

text \<open>The key \<open>fmt.Sprintf("%s:%s", user, pass)\<close>.\<close>

definition cacheKey :: "string \<Rightarrow> string \<Rightarrow> string" where
  "cacheKey user pass = user @ '':'' @ pass"

text \<open>
  One call of \<open>Authenticate\<close>: what it returns, what it wrote to the response writer, the
  cache behind \<open>r.cache\<close> after the call, and the calls of \<open>radius.Exchange\<close> it made.
\<close>

record reply =
  ret :: "string \<times> bool \<times> error option"
  written :: "http_effect list"
  cache_after :: "Cache option"
  exchanged :: "dispatch list"

text \<open>
  The request enters by the result of \<open>req.BasicAuth()\<close>: \<open>None\<close> when it carries no
  Basic credentials, else user and password.
\<close>

definition Authenticate :: "lib \<Rightarrow> HTTPRadiusAuth \<Rightarrow> world \<Rightarrow> (string \<times> string) option \<Rightarrow> reply" where
  "Authenticate L r W req =
     (case req of
        None \<Rightarrow>
          (let (v, w) = promptForCredentials r [] None
           in \<lparr>ret = v, written = w, cache_after = cache r, exchanged = []\<rparr>)
      | Some (user, pass) \<Rightarrow>
          (case (case cache r of
                   None \<Rightarrow> None
                 | Some c \<Rightarrow> cache_Get c (now_Get W) (cacheKey user pass)) of
             Some cachedResult \<Rightarrow>
               if cachedResult
               then \<lparr>ret = (user, True, None), written = [], cache_after = cache r, exchanged = []\<rparr>
               else (let (v, w) = promptForCredentials r [http_Error ''Unauthorized'' 401] None
                     in \<lparr>ret = v, written = w, cache_after = cache r, exchanged = []\<rparr>)
           | None \<Rightarrow>
               (let ((ok, e), calls) = checkRadiusConcurrent L r W user pass
                in case e of
                     Some e' \<Rightarrow>
                       (let (v, w) = promptForCredentials r
                                       [http_Error (''RADIUS error: '' @ Error_text e') 500] None
                        in \<lparr>ret = v, written = w, cache_after = cache r, exchanged = calls\<rparr>)
                   | None \<Rightarrow>
                       (let c' = (case cache r of
                                    None \<Rightarrow> None
                                  | Some c \<Rightarrow>
                                      Some (cache_SetDefault c (now_Set W) (cacheKey user pass) ok))
                        in if \<not> ok
                           then (let (v, w) = promptForCredentials r
                                                [http_Error ''Unauthorized'' 401] None
                                 in \<lparr>ret = v, written = w, cache_after = c', exchanged = calls\<rparr>)
                           else \<lparr>ret = (user, True, None), written = [], cache_after = c',
                                   exchanged = calls\<rparr>))))"

section \<open>caddyfile.go, the directive: parseCaddyfile\<close>

text \<open>
  The block of the \<open>radius_auth\<close> directive reaches \<open>parseCaddyfile\<close> through the
  dispenser of the Caddyfile package; here it is the list of its lines between the braces,
  each line the list of its tokens. \<open>NextBlock\<close> moves to the next token, \<open>Val\<close> reads
  it, \<open>RemainingArgs\<close> takes the rest of the line and \<open>NextArg\<close> the next token of the
  line. The errors of \<open>h.Err\<close> and \<open>h.Errf\<close> are kept by their message (the dispenser
  adds the position).

  The loop over the arguments of \<open>servers\<close>, appending to \<open>ra.Servers\<close>:
\<close>

fun serversArgs :: "lib \<Rightarrow> string list \<Rightarrow> string list \<Rightarrow> error + string list" where
  "serversArgs L acc [] = Inr acc"
| "serversArgs L acc (s # args) =
     (if CHR '':'' \<notin> set s
      then Inl (Error (''invalid RADIUS server address: '' @ s @ '' (must include port)''))
      else let (host, port, e) = SplitHostPort L s
           in if e \<noteq> None \<or> host = '''' \<or> port = ''''
              then Inl (Error (''invalid RADIUS server format: '' @ s))
              else serversArgs L (acc @ [s]) args)"

text \<open>The body of the loop \<open>for h.NextBlock(0)\<close> over the tokens left on one line.\<close>

fun parseTokens :: "lib \<Rightarrow> HTTPRadiusAuth \<Rightarrow> string list \<Rightarrow> error + HTTPRadiusAuth" where
  "parseTokens L ra [] = Inr ra"
| "parseTokens L ra (v # rest) =
     (if v = ''servers'' then
        (if length rest = 0 then Inl (Error ''servers requires at least one address'')
         else case serversArgs L (Servers ra) rest of
                Inl e \<Rightarrow> Inl e
              | Inr ss \<Rightarrow> Inr (ra\<lparr>Servers := ss\<rparr>))
      else if v = ''secret'' then
        (case rest of
           [] \<Rightarrow> Inl (Error ''secret requires a value'')
         | x # rest' \<Rightarrow> parseTokens L (ra\<lparr>Secret := x\<rparr>) rest')
      else if v = ''realm'' then
        (case rest of
           [] \<Rightarrow> Inl (Error ''realm requires a value'')
         | x # rest' \<Rightarrow> parseTokens L (ra\<lparr>Realm := x\<rparr>) rest')
      else if v = ''timeout'' then
        (case rest of
           [] \<Rightarrow> Inl (Error ''timeout requires a duration value (e.g. 3s)'')
         | x # rest' \<Rightarrow>
             (case snd (ParseDuration L x) of
                Some e \<Rightarrow> Inl (Error (''invalid timeout duration: '' @ Error_text e))
              | None \<Rightarrow> parseTokens L (ra\<lparr>Timeout := x\<rparr>) rest'))
      else if v = ''cache_ttl'' then
        (case rest of
           [] \<Rightarrow> Inl (Error ''cache_ttl requires a duration value (e.g. 300s)'')
         | x # rest' \<Rightarrow>
             (case snd (ParseDuration L x) of
                Some e \<Rightarrow> Inl (Error (''invalid cache_ttl duration: '' @ Error_text e))
              | None \<Rightarrow> parseTokens L (ra\<lparr>CacheTTL := x\<rparr>) rest'))
      else Inl (Error (''unrecognized directive: '' @ v)))"

fun parseLines :: "lib \<Rightarrow> HTTPRadiusAuth \<Rightarrow> string list list \<Rightarrow> error + HTTPRadiusAuth" where
  "parseLines L ra [] = Inr ra"
| "parseLines L ra (l # ls) =
     (case parseTokens L ra l of
        Inl e \<Rightarrow> Inl e
      | Inr ra' \<Rightarrow> parseLines L ra' ls)"

text \<open>
  \<open>parseCaddyfile\<close> returns the error, or the configuration it hands to the
  authentication handler (as JSON, from which the server builds the struct that
  \<open>Provision\<close> receives).
\<close>

definition parseCaddyfile :: "lib \<Rightarrow> string list list \<Rightarrow> error + HTTPRadiusAuth" where
  "parseCaddyfile L block =
     (case parseLines L \<lparr>Servers = [], Secret = '''', Realm = '''', Timeout = '''',
                         CacheTTL = '''', cache = None\<rparr> block of
        Inl e \<Rightarrow> Inl e
      | Inr ra \<Rightarrow>
          if length (Servers ra) = 0 then Inl (Error ''at least one RADIUS server must be defined'')
          else if Secret ra = '''' then Inl (Error ''radius secret must be set'')
          else Inr ra)"

section \<open>Values for the examples\<close>

text \<open>
  The library functions at the values the examples use. \<open>demo_SplitHostPort\<close> agrees
  with \<open>net.SplitHostPort\<close> on addresses without brackets: it splits at the colon and
  refuses an address with none or with more than one. \<open>demo_ParseDuration\<close> knows the
  durations \<open>0s\<close>, \<open>3s\<close> and \<open>1m\<close> and refuses the other strings of the examples,
  returning the zero duration with the error as \<open>time.ParseDuration\<close> does. The
  attribute setters refuse a user name over 253 bytes, a password over 128 bytes and an
  empty secret (the size limits of the RADIUS attributes). The examples' messages hold no
  \<open>%\<close>, so \<open>fmt.Errorf\<close> copies them.
\<close>

definition demo_SplitHostPort :: "string \<Rightarrow> string \<times> string \<times> error option" where
  "demo_SplitHostPort s =
     (let host = takeWhile (\<lambda>c. c \<noteq> CHR '':'') s;
          rest = dropWhile (\<lambda>c. c \<noteq> CHR '':'') s
      in if rest = [] then ('''', '''', Some (Error (''address '' @ s @ '': missing port in address'')))
         else if CHR '':'' \<in> set (tl rest)
         then ('''', '''', Some (Error (''address '' @ s @ '': too many colons in address'')))
         else (host, tl rest, None))"

definition demo_ParseDuration :: "string \<Rightarrow> int \<times> error option" where
  "demo_ParseDuration s =
     (if s = ''0s'' then (0, None)
      else if s = ''3s'' then (3000000000, None)
      else if s = ''1m'' then (60000000000, None)
      else (0, Some (Error (''time: invalid duration '' @ [CHR 0x22] @ s @ [CHR 0x22]))))"

definition demo :: lib where
  "demo =
     \<lparr>UserName_SetString = (\<lambda>u. if length u > 253 then Some (Error ''string too long'') else None),
      UserPassword_SetString =
        (\<lambda>secret p. if length p > 128 then Some (Error ''plaintext longer than 128 characters'')
                     else if secret = '''' then Some (Error ''empty secret'')
                     else None),
      ParseDuration = demo_ParseDuration,
      SplitHostPort = demo_SplitHostPort,
      ParseIP = (\<lambda>h. h = ''10.0.0.1'' \<or> h = ''10.0.0.2''),
      Code_String = (\<lambda>c. if c = 11 then ''Access-Challenge'' else ''Code''),
      Errorf_text = (\<lambda>f. f)\<rparr>"

text \<open>A configuration with two servers, A and B, and a cache of one minute.\<close>

definition cfg :: HTTPRadiusAuth where
  "cfg = \<lparr>Servers = [''10.0.0.1:1812'', ''10.0.0.2:1812''], Secret = ''sharedsecret'',
          Realm = '''', Timeout = ''3s'', CacheTTL = ''1m'',
          cache = Some (cache_New 60000000000)\<rparr>"

text \<open>
  Worlds for one call: which server answers what, B's result arriving first, the map
  ranged over from A to B, the lookup at time 0 and the store at time 1.
\<close>

definition world_of :: "exchange \<Rightarrow> exchange \<Rightarrow> world" where
  "world_of a b =
     \<lparr>Exchange = (\<lambda>i. if i = 0 then a else b), arrival = [1],
      rangeOrder = [''10.0.0.1:1812'', ''10.0.0.2:1812''], now_Get = 0, now_Set = 1\<rparr>"

definition timed_out :: exchange where
  "timed_out = Failed (Error ''context deadline exceeded'')"

definition refused :: exchange where
  "refused = Failed (Error ''connection refused'')"

text \<open>The same server configured twice.\<close>

definition cfg_twice :: HTTPRadiusAuth where
  "cfg_twice = cfg\<lparr>Servers := [''10.0.0.1:1812'', ''10.0.0.1:1812'']\<rparr>"

text \<open>
  What \<open>fmt.Errorf\<close> makes of a format string when it is given no operands, for the
  formats in which every \<open>%\<close> is followed at once by a verb (a letter) or by another
  \<open>%\<close>: a text without \<open>%\<close> is copied, \<open>%%\<close> becomes \<open>%\<close>, and a verb \<open>v\<close> that
  finds no operand is printed as \<open>%!v(MISSING)\<close>.
\<close>

fun fmt_no_operands :: "string \<Rightarrow> string" where
  "fmt_no_operands [] = []"
| "fmt_no_operands [c] = (if c = CHR ''%'' then ''%!(NOVERB)'' else [c])"
| "fmt_no_operands (c # v # cs) =
     (if c \<noteq> CHR ''%'' then c # fmt_no_operands (v # cs)
      else if v = CHR ''%'' then CHR ''%'' # fmt_no_operands cs
      else ''%!'' @ [v] @ ''(MISSING)'' @ fmt_no_operands cs)"

text \<open>The library with that formatting in the place of the copy.\<close>

definition demo_fmt :: lib where
  "demo_fmt = demo\<lparr>Errorf_text := fmt_no_operands\<rparr>"

text \<open>
  One server, at an IPv6 address with a zone: \<open>net.SplitHostPort\<close> splits it into the
  host \<open>::1%lo\<close> and the port \<open>18117\<close>, so both \<open>parseCaddyfile\<close> and
  \<open>isValidServerAddr\<close> accept it.
\<close>

definition cfg_zone :: HTTPRadiusAuth where
  "cfg_zone = \<lparr>Servers = [''[::1%lo]:18117''], Secret = ''sharedsecret'', Realm = '''',
               Timeout = ''3s'', CacheTTL = ''0s'', cache = None\<rparr>"


section \<open>Notions used in the statements\<close>

text \<open>
  An address is a valid host:port when \<open>net.SplitHostPort\<close> splits it, without error,
  into a host and a port that are not empty: the test both \<open>parseCaddyfile\<close> and
  \<open>isValidServerAddr\<close> make.
\<close>

definition splits :: "lib \<Rightarrow> string \<Rightarrow> bool" where
  "splits L s = (case SplitHostPort L s of (host, port, e) \<Rightarrow> e = None \<and> host \<noteq> '''' \<and> port \<noteq> '''')"

text \<open>The string \<open>Provision\<close> parses as the cache TTL: the field, or its default.\<close>

definition ttl_string :: "HTTPRadiusAuth \<Rightarrow> string" where
  "ttl_string r = (if CacheTTL r = '''' then ''0s'' else CacheTTL r)"

text \<open>A configuration as JSON gives it, with one address that has no port.\<close>

definition cfg_bad :: HTTPRadiusAuth where
  "cfg_bad = \<lparr>Servers = [''10.0.0.1:1812'', ''bad''], Secret = ''sharedsecret'',
              Realm = '''', Timeout = '''', CacheTTL = '''', cache = None\<rparr>"

text \<open>A configuration as JSON gives it, with a timeout that is no duration.\<close>

definition cfg_abc :: HTTPRadiusAuth where
  "cfg_abc = \<lparr>Servers = [''10.0.0.1:1812'', ''10.0.0.2:1812''], Secret = ''sharedsecret'',
              Realm = '''', Timeout = ''abc'', CacheTTL = '''', cache = None\<rparr>"

section \<open>Lemmas\<close>

lemma set_arrivalOrder: "set (arrivalOrder cs xs) = set xs"
proof (induction cs arbitrary: xs)
  case Nil
  show ?case by simp
next
  case (Cons c cs)
  show ?case
  proof (cases "xs = []")
    case True
    then show ?thesis by simp
  next
    case False
    define i where "i = c mod length xs"
    have i: "i < length xs" using False by (simp add: i_def)
    have "xs = take i xs @ xs ! i # drop (Suc i) xs"
      using i by (simp add: id_take_nth_drop)
    then have "set xs = insert (xs ! i) (set (take i xs @ drop (Suc i) xs))"
      by (metis Un_insert_right list.simps(15) set_append)
    then show ?thesis using False Cons.IH by (simp add: i_def Let_def)
  qed
qed

lemma mset_arrivalOrder: "mset (arrivalOrder cs xs) = mset xs"
proof (induction cs arbitrary: xs)
  case Nil
  show ?case by simp
next
  case (Cons c cs)
  show ?case
  proof (cases "xs = []")
    case True
    then show ?thesis by simp
  next
    case False
    define i where "i = c mod length xs"
    have i: "i < length xs" using False by (simp add: i_def)
    have "xs = take i xs @ xs ! i # drop (Suc i) xs"
      using i by (simp add: id_take_nth_drop)
    then have "mset xs = add_mset (xs ! i) (mset (take i xs @ drop (Suc i) xs))"
      by (metis mset.simps(2) mset_append union_mset_add_mset_right)
    then show ?thesis using False Cons.IH by (simp add: i_def Let_def)
  qed
qed

lemma codes_distinct:
  "CodeAccessAccept \<noteq> CodeAccessReject" "CodeAccessAccept \<noteq> 0" "CodeAccessReject \<noteq> 0"
  by (simp_all add: CodeAccessAccept_def CodeAccessReject_def)

lemma hasAccessAccept_collect:
  "hasAccessAccept (collect st ch) \<longleftrightarrow> hasAccessAccept st \<or> (\<exists>res\<in>set ch. code res = CodeAccessAccept)"
  by (induction ch arbitrary: st) (auto simp: receive_def Let_def)

lemma hasReject_collect:
  "hasReject (collect st ch) \<longleftrightarrow> hasReject st \<or> (\<exists>res\<in>set ch. code res = CodeAccessReject)"
  by (induction ch arbitrary: st) (auto simp: receive_def Let_def codes_distinct)

lemma serverResults_collect:
  "serverResults (collect st ch) =
     serverResults st ++ map_of (rev (map (\<lambda>res. (server res, (code res, err res))) ch))"
  by (induction ch arbitrary: st) (auto simp: receive_def Let_def map_add_def fun_eq_iff split: option.splits)

lemma set_spawned:
  "set (spawned r W) = {goroutine (Servers r ! i) (Exchange W i) | i. i < length (Servers r)}"
  by (auto simp: spawned_def in_set_enumerate_eq image_iff) 

lemma server_goroutine: "server (goroutine s x) = s"
  by (cases x) (simp_all add: goroutine_def)

lemma code_goroutine: "code (goroutine s x) = (case x of Response c \<Rightarrow> c | Failed e \<Rightarrow> 0)"
  by (cases x) (simp_all add: goroutine_def)

lemma map_server_spawned: "map server (spawned r W) = Servers r"
proof -
  have "map server (spawned r W) = map snd (enumerate 0 (Servers r))"
    by (simp add: spawned_def split_def server_goroutine comp_def)
  then show ?thesis by simp
qed

lemma accept_in_spawned:
  "(\<exists>res\<in>set (spawned r W). code res = CodeAccessAccept) \<longleftrightarrow>
   (\<exists>i<length (Servers r). Exchange W i = Response CodeAccessAccept)"
  by (auto simp: set_spawned code_goroutine codes_distinct split: exchange.splits)

lemma reject_in_spawned:
  "(\<exists>res\<in>set (spawned r W). code res = CodeAccessReject) \<longleftrightarrow>
   (\<exists>i<length (Servers r). Exchange W i = Response CodeAccessReject)"
  by (auto simp: set_spawned code_goroutine codes_distinct split: exchange.splits)

section \<open>The resolution policy of checkRadiusConcurrent\<close>

text \<open>
  C1. Whenever the Access-Request packet is built (both attribute setters return nil) and
  \<open>radius.Exchange\<close> returns Access-Accept in the goroutine of at least one configured
  server, \<open>checkRadiusConcurrent\<close> returns \<open>(true, nil)\<close>: for every credential pair,
  every position of the accepting server, every outcome of the other servers (errors,
  timeouts, Access-Reject, unknown codes) and every order of arrival.
\<close>

theorem checkRadiusConcurrent_accept:
  assumes "UserName_SetString L username = None"
    and "UserPassword_SetString L (Secret r) password = None"
    and "\<exists>i<length (Servers r). Exchange W i = Response CodeAccessAccept"
  shows "fst (checkRadiusConcurrent L r W username password) = (True, None)"
proof -
  from assms(3) have ne: "length (Servers r) \<noteq> 0" by auto
  have "\<exists>res\<in>set (arrivalOrder (arrival W) (spawned r W)). code res = CodeAccessAccept"
    using assms(3) by (simp only: set_arrivalOrder accept_in_spawned)
  then have "hasAccessAccept (collect \<lparr>hasAccessAccept = False, hasReject = False,
      serverResults = Map.empty\<rparr> (arrivalOrder (arrival W) (spawned r W)))"
    by (simp only: hasAccessAccept_collect) simp
  then show ?thesis
    using ne assms(1,2) by (simp add: checkRadiusConcurrent_def Let_def)
qed

text \<open>The scenario of the spec: A times out, B accepts.\<close>

theorem checkRadiusConcurrent_accept_witness:
  "fst (checkRadiusConcurrent demo cfg (world_of timed_out (Response CodeAccessAccept)) ''alice'' ''pw'')
   = (True, None)"
proof -
  have h1: "UserName_SetString demo ''alice'' = None" by (simp add: demo_def)
  have h2: "UserPassword_SetString demo (Secret cfg) ''pw'' = None" by (simp add: demo_def cfg_def)
  have "Exchange (world_of timed_out (Response CodeAccessAccept)) 1 = Response CodeAccessAccept"
    by (simp add: world_of_def)
  then have h3: "\<exists>i<length (Servers cfg). Exchange (world_of timed_out (Response CodeAccessAccept)) i = Response CodeAccessAccept"
    by (intro exI[of _ 1]) (simp add: cfg_def)
  show ?thesis using checkRadiusConcurrent_accept [OF h1 h2 h3] .
qed

text \<open>
  C2. Whenever the packet is built, no server's outcome is Access-Accept and at least one
  server's outcome is Access-Reject, \<open>checkRadiusConcurrent\<close> returns \<open>(false, nil)\<close>,
  whatever the other servers did.
\<close>

theorem checkRadiusConcurrent_reject:
  assumes "UserName_SetString L username = None"
    and "UserPassword_SetString L (Secret r) password = None"
    and "\<forall>i<length (Servers r). Exchange W i \<noteq> Response CodeAccessAccept"
    and "\<exists>i<length (Servers r). Exchange W i = Response CodeAccessReject"
  shows "fst (checkRadiusConcurrent L r W username password) = (False, None)"
proof -
  let ?st = "collect \<lparr>hasAccessAccept = False, hasReject = False,
      serverResults = Map.empty\<rparr> (arrivalOrder (arrival W) (spawned r W))"
  from assms(4) have ne: "length (Servers r) \<noteq> 0" by auto
  have "\<not> (\<exists>res\<in>set (arrivalOrder (arrival W) (spawned r W)). code res = CodeAccessAccept)"
    using assms(3) by (simp only: set_arrivalOrder accept_in_spawned) simp
  then have no: "\<not> hasAccessAccept ?st"
    by (simp only: hasAccessAccept_collect) simp
  have "\<exists>res\<in>set (arrivalOrder (arrival W) (spawned r W)). code res = CodeAccessReject"
    using assms(4) by (simp only: set_arrivalOrder reject_in_spawned)
  then have rej: "hasReject ?st"
    by (simp only: hasReject_collect) simp
  show ?thesis
    using ne assms(1,2) no rej by (simp add: checkRadiusConcurrent_def Let_def)
qed

text \<open>The scenario of the spec: A rejects, B times out.\<close>

theorem checkRadiusConcurrent_reject_witness:
  "fst (checkRadiusConcurrent demo cfg (world_of (Response CodeAccessReject) timed_out) ''alice'' ''pw'')
   = (False, None)"
proof -
  have h1: "UserName_SetString demo ''alice'' = None" by (simp add: demo_def)
  have h2: "UserPassword_SetString demo (Secret cfg) ''pw'' = None" by (simp add: demo_def cfg_def)
  have h3: "\<forall>i<length (Servers cfg). Exchange (world_of (Response CodeAccessReject) timed_out) i \<noteq> Response CodeAccessAccept"
    by (simp add: world_of_def timed_out_def CodeAccessAccept_def CodeAccessReject_def)
  have "Exchange (world_of (Response CodeAccessReject) timed_out) 0 = Response CodeAccessReject"
    by (simp add: world_of_def)
  then have h4: "\<exists>i<length (Servers cfg). Exchange (world_of (Response CodeAccessReject) timed_out) i = Response CodeAccessReject"
    by (intro exI[of _ 0]) (simp add: cfg_def)
  show ?thesis using checkRadiusConcurrent_reject [OF h1 h2 h3 h4] .
qed

lemma rangeIssues_concat:
  "rangeIssues L m ks msg =
     msg @ concat (map (\<lambda>k. case m k of None \<Rightarrow> [] | Some res \<Rightarrow> issue L k res) ks)"
  by (induction ks arbitrary: msg) (auto split: option.splits)

lemma serverResults_collect_init:
  "serverResults (collect \<lparr>hasAccessAccept = False, hasReject = False, serverResults = Map.empty\<rparr> ch) =
     map_of (rev (map (\<lambda>res. (server res, (code res, err res))) ch))"
  by (simp add: serverResults_collect)

lemma serverResults_some:
  assumes "s \<in> server ` set ch"
  shows "\<exists>res\<in>set ch. server res = s \<and>
           serverResults (collect \<lparr>hasAccessAccept = False, hasReject = False, serverResults = Map.empty\<rparr> ch) s
             = Some (code res, err res)"
proof -
  let ?xs = "rev (map (\<lambda>res. (server res, (code res, err res))) ch)"
  have "s \<in> fst ` set ?xs" using assms by (simp add: image_image)
  then have "map_of ?xs s \<noteq> None" by (simp only: map_of_eq_None_iff) simp
  then obtain v where v: "map_of ?xs s = Some v" by blast
  then have "(s, v) \<in> set ?xs" by (rule map_of_SomeD)
  then have "(s, v) \<in> (\<lambda>res. (server res, (code res, err res))) ` set ch" by simp
  then obtain res where "res \<in> set ch" "server res = s" "v = (code res, err res)" by blast
  then show ?thesis using v by (simp only: serverResults_collect_init) blast
qed

lemma issue_goroutine:
  "issue L s (code (goroutine s x), err (goroutine s x)) =
     (case x of
        Failed e \<Rightarrow> s @ '' error: '' @ Error_text e @ ''; ''
      | Response c \<Rightarrow> if c \<noteq> 0 then s @ '' returned unknown code: '' @ Code_String L c @ ''; ''
                      else s @ '': no response; '')"
  by (cases x) (simp_all add: issue_def goroutine_def)

lemma arrivalOrder_complete: "mset ys = mset xs \<Longrightarrow> \<exists>cs. arrivalOrder cs xs = ys"
proof (induction ys arbitrary: xs)
  case Nil
  then have "xs = []" by simp
  then have "arrivalOrder [] xs = []" by simp
  then show ?case by blast
next
  case (Cons y ys)
  then have "y \<in> set xs" by (metis list.set_intros(1) set_mset_mset)
  then obtain i where i: "i < length xs" "xs ! i = y" by (auto simp: in_set_conv_nth)
  let ?xs' = "take i xs @ drop (Suc i) xs"
  have "xs = take i xs @ y # drop (Suc i) xs" by (metis i id_take_nth_drop)
  then have "mset xs = add_mset y (mset ?xs')"
    by (metis mset.simps(2) mset_append union_mset_add_mset_right)
  with Cons.prems have "mset ys = mset ?xs'" by simp
  from Cons.IH[OF this] obtain cs where cs: "arrivalOrder cs ?xs' = ys" by blast
  have "xs \<noteq> []" using i by auto
  then have "arrivalOrder (i # cs) xs = y # ys" using i cs by (simp add: Let_def)
  then show ?case by blast
qed

text \<open>
  The third case, for every input. When the packet is built and no server's outcome is
  Access-Accept or Access-Reject (every \<open>radius.Exchange\<close> failed or returned another
  code), \<open>checkRadiusConcurrent\<close> returns \<open>false\<close> with a non-nil error. With a server
  configured, the text it builds in \<open>errorMsg\<close> is \<open>RADIUS authentication issues: \<close>
  followed by one fragment per key of \<open>serverResults\<close>, in the order \<open>range\<close> visits
  the keys (each once; the keys are the configured servers). For every configured server
  the fragment names the server and tells, from the outcome of a dispatch to it, that it
  errored (with the error's text), returned an unknown code (with the code), or gave no
  response (code 0 and no error). The error returned is \<open>fmt.Errorf(errorMsg)\<close>: the text
  is not the message but the format string, and the theorem says nothing of what
  \<open>fmt.Errorf\<close> makes of it.
\<close>

theorem checkRadiusConcurrent_indeterminate:
  assumes "UserName_SetString L username = None"
    and "UserPassword_SetString L (Secret r) password = None"
    and "\<forall>i<length (Servers r). Exchange W i \<noteq> Response CodeAccessAccept
                                 \<and> Exchange W i \<noteq> Response CodeAccessReject"
    and "distinct (rangeOrder W)"
    and "set (rangeOrder W) = set (Servers r)"
  shows "\<exists>e. fst (checkRadiusConcurrent L r W username password) = (False, Some e)
            \<and> (Servers r \<noteq> [] \<longrightarrow>
                 (\<exists>frag. e = Error (Errorf_text L
                                (''RADIUS authentication issues: '' @ concat (map frag (rangeOrder W))))
                    \<and> (\<forall>s\<in>set (Servers r). \<exists>i<length (Servers r). Servers r ! i = s \<and>
                          frag s =
                            (case Exchange W i of
                               Failed x \<Rightarrow> s @ '' error: '' @ Error_text x @ ''; ''
                             | Response c \<Rightarrow>
                                 if c \<noteq> 0
                                 then s @ '' returned unknown code: '' @ Code_String L c @ ''; ''
                                 else s @ '': no response; ''))))"
proof (cases "Servers r = []")
  case True
  then show ?thesis by (simp add: checkRadiusConcurrent_def)
next
  case False
  let ?ch = "arrivalOrder (arrival W) (spawned r W)"
  let ?st = "collect \<lparr>hasAccessAccept = False, hasReject = False, serverResults = Map.empty\<rparr> ?ch"
  let ?frag = "\<lambda>k. case serverResults ?st k of None \<Rightarrow> [] | Some res \<Rightarrow> issue L k res"
  have "\<not> (\<exists>res\<in>set ?ch. code res = CodeAccessAccept)"
    using assms(3) by (simp only: set_arrivalOrder accept_in_spawned) simp
  then have no: "\<not> hasAccessAccept ?st"
    by (simp only: hasAccessAccept_collect) simp
  have "\<not> (\<exists>res\<in>set ?ch. code res = CodeAccessReject)"
    using assms(3) by (simp only: set_arrivalOrder reject_in_spawned) simp
  then have norej: "\<not> hasReject ?st"
    by (simp only: hasReject_collect) simp
  have res: "fst (checkRadiusConcurrent L r W username password) =
      (False, Some (Error (Errorf_text L
         (''RADIUS authentication issues: '' @ concat (map ?frag (rangeOrder W))))))"
    using False assms(1,2) no norej
    by (simp add: checkRadiusConcurrent_def Let_def rangeIssues_concat)
  have frag: "\<exists>i<length (Servers r). Servers r ! i = s \<and>
      ?frag s = (case Exchange W i of
                   Failed x \<Rightarrow> s @ '' error: '' @ Error_text x @ ''; ''
                 | Response c \<Rightarrow>
                     if c \<noteq> 0 then s @ '' returned unknown code: '' @ Code_String L c @ ''; ''
                     else s @ '': no response; '')"
    if s: "s \<in> set (Servers r)" for s
  proof -
    have "s \<in> server ` set ?ch"
      using s map_server_spawned[of r W] by (metis set_arrivalOrder set_map)
    from serverResults_some[OF this] obtain res where
      r1: "res \<in> set (spawned r W)" and r2: "server res = s"
      and r3: "serverResults ?st s = Some (code res, err res)"
      by (auto simp: set_arrivalOrder)
    from r1 obtain i where i: "i < length (Servers r)"
      and ri: "res = goroutine (Servers r ! i) (Exchange W i)"
      by (auto simp: set_spawned)
    have si: "Servers r ! i = s" using r2 ri by (simp add: server_goroutine)
    have "?frag s = issue L s (code (goroutine s (Exchange W i)), err (goroutine s (Exchange W i)))"
      using r3 ri si by simp
    then show ?thesis using i si by (auto simp only: issue_goroutine)
  qed
  show ?thesis using res frag by blast
qed

text \<open>The scenario of the spec: A refuses the connection, B times out.\<close>

lemma demo_fields:
  "UserName_SetString demo ''alice'' = None"
  "UserPassword_SetString demo (Secret cfg) ''pw'' = None"
  by (simp_all add: demo_def cfg_def)

theorem checkRadiusConcurrent_indeterminate_witness:
  "fst (checkRadiusConcurrent demo cfg (world_of refused timed_out) ''alice'' ''pw'') =
     (False, Some (Error ''RADIUS authentication issues: 10.0.0.1:1812 error: connection refused; 10.0.0.2:1812 error: context deadline exceeded; ''))"
proof -
  have h3: "\<forall>i<length (Servers cfg). Exchange (world_of refused timed_out) i \<noteq> Response CodeAccessAccept
                                 \<and> Exchange (world_of refused timed_out) i \<noteq> Response CodeAccessReject"
    by (simp add: world_of_def refused_def timed_out_def)
  have h4: "distinct (rangeOrder (world_of refused timed_out))" by (simp add: world_of_def)
  have h5: "set (rangeOrder (world_of refused timed_out)) = set (Servers cfg)"
    by (simp add: world_of_def cfg_def)
  from checkRadiusConcurrent_indeterminate [OF demo_fields h3 h4 h5]
  obtain e frag where
    e: "fst (checkRadiusConcurrent demo cfg (world_of refused timed_out) ''alice'' ''pw'') = (False, Some e)"
    and m: "e = Error (Errorf_text demo (''RADIUS authentication issues: '' @ concat (map frag (rangeOrder (world_of refused timed_out)))))"
    and f: "\<forall>s\<in>set (Servers cfg). \<exists>i<length (Servers cfg). Servers cfg ! i = s \<and>
                          frag s =
                            (case Exchange (world_of refused timed_out) i of
                               Failed x \<Rightarrow> s @ '' error: '' @ Error_text x @ ''; ''
                             | Response c \<Rightarrow>
                                 if c \<noteq> 0
                                 then s @ '' returned unknown code: '' @ Code_String demo c @ ''; ''
                                 else s @ '': no response; '')"
    by (auto simp: cfg_def)
  have fa: "frag ''10.0.0.1:1812'' = ''10.0.0.1:1812 error: connection refused; ''"
    using f by (auto simp: cfg_def world_of_def refused_def timed_out_def less_Suc_eq)
  have fb: "frag ''10.0.0.2:1812'' = ''10.0.0.2:1812 error: context deadline exceeded; ''"
    using f by (auto simp: cfg_def world_of_def refused_def timed_out_def less_Suc_eq)
  show ?thesis using e m fa fb by (simp add: world_of_def demo_def)
qed

lemma fmt_no_operands_copy: "CHR ''%'' \<notin> set f \<Longrightarrow> fmt_no_operands f = f"
  by (induction f rule: fmt_no_operands.induct) auto

text \<open>
  C3. The claim asks for an error whose message attributes the failure to each configured
  server. The code builds that text and then passes it to \<open>fmt.Errorf\<close> as the format
  string, so a \<open>%\<close> in it is read as a verb. With the one server \<open>[::1%lo]:18117\<close>
  timing out, the message of the error returned no longer holds the server's address:
  \<open>%l\<close> has become \<open>%!l(MISSING)\<close>.
\<close>

theorem checkRadiusConcurrent_percent:
  "fst (checkRadiusConcurrent demo_fmt cfg_zone
          ((world_of timed_out timed_out)\<lparr>rangeOrder := [''[::1%lo]:18117'']\<rparr>) ''alice'' ''pw'')
     = (False, Some (Error
         ''RADIUS authentication issues: [::1%!l(MISSING)o]:18117 error: context deadline exceeded; ''))"
  by (simp add: checkRadiusConcurrent_def cfg_zone_def demo_fmt_def demo_def demo_ParseDuration_def
      world_of_def timed_out_def spawned_def goroutine_def receive_def Let_def issue_def
      CodeAccessAccept_def CodeAccessReject_def enumerate_eq_zip upt_rec)

section \<open>The order of arrival\<close>

lemma flags_arrival:
  "hasAccessAccept (collect st (arrivalOrder a1 xs)) = hasAccessAccept (collect st (arrivalOrder a2 xs))"
  "hasReject (collect st (arrivalOrder a1 xs)) = hasReject (collect st (arrivalOrder a2 xs))"
  by (simp_all only: hasAccessAccept_collect hasReject_collect set_arrivalOrder)

lemma serverResults_arrival:
  assumes "distinct (map server xs)"
  shows "serverResults (collect \<lparr>hasAccessAccept = False, hasReject = False, serverResults = Map.empty\<rparr>
                         (arrivalOrder a1 xs)) =
         serverResults (collect \<lparr>hasAccessAccept = False, hasReject = False, serverResults = Map.empty\<rparr>
                         (arrivalOrder a2 xs))"
proof -
  let ?e = "\<lambda>res. (server res, (code res, err res))"
  have d: "distinct (map fst (rev (map ?e (arrivalOrder a xs))))" for a
  proof -
    have "mset (map server (arrivalOrder a xs)) = mset (map server xs)"
      by (simp add: mset_arrivalOrder)
    then have "distinct (map server (arrivalOrder a xs))"
      using assms by (metis mset_eq_imp_distinct_iff)
    then show ?thesis by (simp add: rev_map [symmetric] comp_def)
  qed
  have s: "set (rev (map ?e (arrivalOrder a1 xs))) = set (rev (map ?e (arrivalOrder a2 xs)))"
    by (simp add: set_arrivalOrder)
  have "map_of (rev (map ?e (arrivalOrder a1 xs))) = map_of (rev (map ?e (arrivalOrder a2 xs)))"
    using map_of_inject_set [OF d d] s by blast
  then show ?thesis by (simp only: serverResults_collect_init)
qed

text \<open>
  C8, as the code has it. Two calls that differ only in the order in which the goroutines'
  results reach the channel return the same boolean, and both a nil error or both a non-nil
  error: the verdict is the same one of \<open>(true, nil)\<close>, \<open>(false, nil)\<close> and
  \<open>(false, error)\<close>. When the error is nil, or when the configured server addresses are
  pairwise distinct, the calls return the same pair altogether (the map being ranged over in
  the same order). The orders of arrival that the choices \<open>a1\<close> and \<open>a2\<close> produce are
  the permutations of the goroutines' results, all of them.
\<close>

theorem checkRadiusConcurrent_arrival_order:
  "fst (fst (checkRadiusConcurrent L r (W\<lparr>arrival := a1\<rparr>) username password)) =
     fst (fst (checkRadiusConcurrent L r (W\<lparr>arrival := a2\<rparr>) username password))
   \<and> (snd (fst (checkRadiusConcurrent L r (W\<lparr>arrival := a1\<rparr>) username password)) = None) =
     (snd (fst (checkRadiusConcurrent L r (W\<lparr>arrival := a2\<rparr>) username password)) = None)
   \<and> (snd (fst (checkRadiusConcurrent L r (W\<lparr>arrival := a1\<rparr>) username password)) = None \<or>
        distinct (Servers r) \<longrightarrow>
        checkRadiusConcurrent L r (W\<lparr>arrival := a1\<rparr>) username password =
          checkRadiusConcurrent L r (W\<lparr>arrival := a2\<rparr>) username password)
   \<and> mset (arrivalOrder a1 (spawned r W)) = mset (spawned r W)
   \<and> (mset ch = mset (spawned r W) \<longrightarrow> (\<exists>a. arrivalOrder a (spawned r W) = ch))"
proof -
  let ?xs = "spawned r W"
  let ?init = "\<lparr>hasAccessAccept = False, hasReject = False, serverResults = Map.empty\<rparr>"
  have sp: "spawned r (W\<lparr>arrival := a\<rparr>) = ?xs" for a by (simp add: spawned_def)
  have acc: "hasAccessAccept (collect ?init (arrivalOrder a1 ?xs)) =
             hasAccessAccept (collect ?init (arrivalOrder a2 ?xs))"
    by (rule flags_arrival)
  have rej: "hasReject (collect ?init (arrivalOrder a1 ?xs)) =
             hasReject (collect ?init (arrivalOrder a2 ?xs))"
    by (rule flags_arrival)
  have m: "distinct (Servers r) \<Longrightarrow>
           serverResults (collect ?init (arrivalOrder a1 ?xs)) =
           serverResults (collect ?init (arrivalOrder a2 ?xs))"
    by (rule serverResults_arrival) (simp add: map_server_spawned)
  have verdict:
    "fst (fst (checkRadiusConcurrent L r (W\<lparr>arrival := a1\<rparr>) username password)) =
       fst (fst (checkRadiusConcurrent L r (W\<lparr>arrival := a2\<rparr>) username password))
     \<and> (snd (fst (checkRadiusConcurrent L r (W\<lparr>arrival := a1\<rparr>) username password)) = None) =
       (snd (fst (checkRadiusConcurrent L r (W\<lparr>arrival := a2\<rparr>) username password)) = None)
     \<and> (snd (fst (checkRadiusConcurrent L r (W\<lparr>arrival := a1\<rparr>) username password)) = None \<or>
          distinct (Servers r) \<longrightarrow>
          checkRadiusConcurrent L r (W\<lparr>arrival := a1\<rparr>) username password =
            checkRadiusConcurrent L r (W\<lparr>arrival := a2\<rparr>) username password)"
    using acc rej m
    by (auto simp: checkRadiusConcurrent_def Let_def sp split: option.splits)
  have perm: "mset (arrivalOrder a1 ?xs) = mset ?xs" by (rule mset_arrivalOrder)
  have every: "mset ch = mset ?xs \<longrightarrow> (\<exists>a. arrivalOrder a ?xs = ch)"
    using arrivalOrder_complete by blast
  show ?thesis using verdict perm every by blast
qed

text \<open>Two distinct servers, A refusing and B timing out, in both orders of arrival.\<close>

theorem checkRadiusConcurrent_arrival_order_witness:
  "checkRadiusConcurrent demo cfg ((world_of refused timed_out)\<lparr>arrival := [0]\<rparr>) ''alice'' ''pw'' =
   checkRadiusConcurrent demo cfg ((world_of refused timed_out)\<lparr>arrival := [1]\<rparr>) ''alice'' ''pw''"
proof -
  have "distinct (Servers cfg)" by (simp add: cfg_def)
  then show ?thesis
    using checkRadiusConcurrent_arrival_order
      [where L = demo and r = cfg and W = "world_of refused timed_out" and ?a1.0 = "[0]"
         and ?a2.0 = "[1]" and username = "''alice''" and password = "''pw''"]
    by blast
qed

text \<open>
  The claim as stated, that the returned pair is the same for every order of arrival, fails
  where a server address is configured twice: \<open>serverResults\<close> keeps, per address, the
  result that arrived last, and the text of the error is built from it. One dispatch to the
  server times out and the other is answered with Access-Challenge (code 11).
\<close>

theorem checkRadiusConcurrent_arrival_order_counterexample:
  "fst (checkRadiusConcurrent demo cfg_twice ((world_of timed_out (Response 11))\<lparr>arrival := [0]\<rparr>) ''alice'' ''pw'')
     = (False, Some (Error ''RADIUS authentication issues: 10.0.0.1:1812 returned unknown code: Access-Challenge; ''))
   \<and> fst (checkRadiusConcurrent demo cfg_twice ((world_of timed_out (Response 11))\<lparr>arrival := [1]\<rparr>) ''alice'' ''pw'')
     = (False, Some (Error ''RADIUS authentication issues: 10.0.0.1:1812 error: context deadline exceeded; ''))"
  by (simp add: checkRadiusConcurrent_def cfg_twice_def cfg_def demo_def demo_ParseDuration_def
      world_of_def timed_out_def spawned_def goroutine_def receive_def Let_def issue_def
      CodeAccessAccept_def CodeAccessReject_def enumerate_eq_zip upt_rec)

section \<open>The cache key\<close>

lemma cacheKey_split:
  assumes "CHR '':'' \<notin> set u"
  shows "takeWhile (\<lambda>c. c \<noteq> CHR '':'') (cacheKey u p) = u"
    and "dropWhile (\<lambda>c. c \<noteq> CHR '':'') (cacheKey u p) = CHR '':'' # p"
  using assms by (induction u) (auto simp: cacheKey_def)

text \<open>
  C7. The credential pairs \<open>Authenticate\<close> derives a key for are those that
  \<open>req.BasicAuth()\<close> yields, and it cuts the decoded credentials at the first colon: the
  user name holds no colon. For every two such pairs the keys \<open>user:pass\<close> differ when
  the pairs differ: equal keys come from equal pairs.
\<close>

theorem cacheKey_injective:
  assumes "CHR '':'' \<notin> set u1" and "CHR '':'' \<notin> set u2"
    and "cacheKey u1 p1 = cacheKey u2 p2"
  shows "u1 = u2 \<and> p1 = p2"
proof -
  have "u1 = takeWhile (\<lambda>c. c \<noteq> CHR '':'') (cacheKey u1 p1)"
    using assms(1) by (simp add: cacheKey_split)
  also have "\<dots> = u2" using assms(2,3) by (simp add: cacheKey_split)
  finally have u: "u1 = u2" .
  have "CHR '':'' # p1 = dropWhile (\<lambda>c. c \<noteq> CHR '':'') (cacheKey u1 p1)"
    using assms(1) by (simp add: cacheKey_split)
  also have "\<dots> = CHR '':'' # p2" using assms(2,3) by (simp add: cacheKey_split)
  finally have "p1 = p2" by simp
  with u show ?thesis by simp
qed

theorem cacheKey_injective_witness:
  "cacheKey ''alice'' ''b:c'' \<noteq> cacheKey ''alic'' ''e:b:c''"
proof
  assume eq: "cacheKey ''alice'' ''b:c'' = cacheKey ''alic'' ''e:b:c''"
  have h1: "CHR '':'' \<notin> set ''alice''" by simp
  have h2: "CHR '':'' \<notin> set ''alic''" by simp
  from cacheKey_injective [OF h1 h2 eq] show False by simp
qed

text \<open>
  The hypothesis is needed: were a user name to hold a colon, two pairs could share a key.
  No such user name reaches \<open>Authenticate\<close>.
\<close>

lemma cacheKey_colon:
  "cacheKey ''a:b'' ''c'' = cacheKey ''a'' ''b:c'' \<and> (''a:b'', ''c'') \<noteq> (''a'', ''b:c'')"
  by (simp add: cacheKey_def)

section \<open>Invalid server addresses at setup\<close>

lemma serversArgs_Inr:
  "serversArgs L acc args = Inr ss \<Longrightarrow> \<forall>s\<in>set args. splits L s"
proof (induction args arbitrary: acc)
  case Nil
  show ?case by simp
next
  case (Cons a args)
  from Cons.prems have a: "splits L a" and rest: "serversArgs L (acc @ [a]) args = Inr ss"
    by (auto simp: splits_def split: if_splits prod.splits)
  from Cons.IH[OF rest] a show ?case by simp
qed

lemma parseTokens_servers:
  assumes "s \<in> set args" and "\<not> splits L s"
  shows "\<exists>e. parseTokens L ra (''servers'' # args) = Inl e"
proof (cases "serversArgs L (Servers ra) args")
  case (Inl e)
  then show ?thesis using assms(1) by (cases args) auto
next
  case (Inr ss)
  from serversArgs_Inr[OF this] assms show ?thesis by blast
qed

lemma parseLines_servers:
  assumes "(''servers'' # args) \<in> set block" and "s \<in> set args" and "\<not> splits L s"
  shows "\<exists>e. parseLines L ra block = Inl e"
  using assms(1)
proof (induction block arbitrary: ra)
  case Nil
  then show ?case by simp
next
  case (Cons l ls)
  show ?case
  proof (cases "parseTokens L ra l")
    case (Inl e)
    then show ?thesis by simp
  next
    case (Inr ra')
    then have "l \<noteq> ''servers'' # args"
      using parseTokens_servers[OF assms(2,3), of ra] by auto
    with Cons.prems have "(''servers'' # args) \<in> set ls" by simp
    from Cons.IH[OF this] show ?thesis using Inr by simp
  qed
qed

lemma validate_filter:
  "fst (validate L ss) = filter (isValidServerAddr L) ss"
  by (induction ss) (auto simp: split_def Let_def)

lemma isValidServerAddr_splits: "isValidServerAddr L s \<Longrightarrow> splits L s"
  by (auto simp: isValidServerAddr_def splits_def split: prod.splits if_splits)

lemma Provision_validated:
  assumes "Servers r \<noteq> []" and "Secret r \<noteq> ''''" and "snd (ParseDuration L (ttl_string r)) = None"
  shows "Servers (fst (Provision L r)) = filter (isValidServerAddr L) (Servers r)"
    and "snd (snd (Provision L r)) = None \<longleftrightarrow> (\<exists>s\<in>set (Servers r). isValidServerAddr L s)"
  using assms validate_filter[of L "Servers r"]
  by (auto simp: Provision_def ttl_string_def Let_def split_def filter_empty_conv
      split: option.splits if_splits)

lemma Provision_ok_valid:
  assumes "snd (snd (Provision L r)) = None"
  shows "Servers (fst (Provision L r)) = filter (isValidServerAddr L) (Servers r)"
  using assms validate_filter[of L "Servers r"]
  by (auto simp: Provision_def Let_def split_def split: option.splits if_splits)

text \<open>
  C9, as the code has it. \<open>parseCaddyfile\<close> returns an error for a block with a
  \<open>servers\<close> line that holds an address which is not a valid host:port. \<open>Provision\<close>
  does not reject the configuration for such an address: when it returns nil, the servers it
  keeps are exactly the addresses \<open>isValidServerAddr\<close> accepts (all valid host:port), the
  others are dropped; and for a configuration with servers, a secret and a cache TTL that
  parses, it returns nil if and only if at least one address is accepted.
\<close>

theorem invalid_server_address:
  "(\<not> splits L s \<and> s \<in> set args \<and> (''servers'' # args) \<in> set block
      \<longrightarrow> (\<exists>e. parseCaddyfile L block = Inl e))
   \<and> (snd (snd (Provision L r)) = None
      \<longrightarrow> Servers (fst (Provision L r)) = filter (isValidServerAddr L) (Servers r)
          \<and> (\<forall>s\<in>set (Servers (fst (Provision L r))). splits L s))
   \<and> (Servers r \<noteq> [] \<and> Secret r \<noteq> '''' \<and> snd (ParseDuration L (ttl_string r)) = None
      \<longrightarrow> (snd (snd (Provision L r)) = None) = (\<exists>s\<in>set (Servers r). isValidServerAddr L s))"
proof (intro conjI impI)
  assume a: "\<not> splits L s \<and> s \<in> set args \<and> (''servers'' # args) \<in> set block"
  then obtain e where "parseLines L \<lparr>Servers = [], Secret = '''', Realm = '''', Timeout = '''',
                         CacheTTL = '''', cache = None\<rparr> block = Inl e"
    using parseLines_servers by blast
  then show "\<exists>e. parseCaddyfile L block = Inl e" by (simp add: parseCaddyfile_def)
next
  assume ok: "snd (snd (Provision L r)) = None"
  then show "Servers (fst (Provision L r)) = filter (isValidServerAddr L) (Servers r)"
    by (rule Provision_ok_valid)
  then show "\<forall>s\<in>set (Servers (fst (Provision L r))). splits L s"
    by (simp add: isValidServerAddr_splits)
next
  assume "Servers r \<noteq> [] \<and> Secret r \<noteq> '''' \<and> snd (ParseDuration L (ttl_string r)) = None"
  then show "(snd (snd (Provision L r)) = None) = (\<exists>s\<in>set (Servers r). isValidServerAddr L s)"
    using Provision_validated(2) by blast
qed

lemma demo_splits:
  "\<not> splits demo ''bad''" "splits demo ''10.0.0.1:1812''"
  by (simp_all add: splits_def demo_def demo_SplitHostPort_def)

text \<open>
  A block with the address \<open>bad\<close> is refused by \<open>parseCaddyfile\<close>; \<open>Provision\<close>
  keeps the other server of \<open>cfg_bad\<close>.
\<close>

theorem invalid_server_address_witness:
  "(\<exists>e. parseCaddyfile demo [[''secret'', ''sharedsecret''], [''servers'', ''10.0.0.1:1812'', ''bad'']] = Inl e)
   \<and> snd (snd (Provision demo cfg_bad)) = None
   \<and> Servers (fst (Provision demo cfg_bad)) = [''10.0.0.1:1812'']"
proof -
  note T = invalid_server_address [where L = demo and s = "''bad''"
      and args = "[''10.0.0.1:1812'', ''bad'']"
      and block = "[[''secret'', ''sharedsecret''], [''servers'', ''10.0.0.1:1812'', ''bad'']]"
      and r = cfg_bad]
  have m: "''bad'' \<in> set [''10.0.0.1:1812'', ''bad'']"
    "[''servers'', ''10.0.0.1:1812'', ''bad'']
       \<in> set [[''secret'', ''sharedsecret''], [''servers'', ''10.0.0.1:1812'', ''bad'']]"
    by simp_all
  from T demo_splits(1) m
  have 1: "\<exists>e. parseCaddyfile demo [[''secret'', ''sharedsecret''],
                                       [''servers'', ''10.0.0.1:1812'', ''bad'']] = Inl e"
    by blast
  have h: "Servers cfg_bad \<noteq> []" "Secret cfg_bad \<noteq> ''''"
    "snd (ParseDuration demo (ttl_string cfg_bad)) = None"
    by (simp_all add: cfg_bad_def ttl_string_def demo_def demo_ParseDuration_def)
  have "isValidServerAddr demo ''10.0.0.1:1812''"
    by (simp add: demo_def demo_SplitHostPort_def isValidServerAddr_def Let_def)
  then have v: "\<exists>s\<in>set (Servers cfg_bad). isValidServerAddr demo s"
    by (simp add: cfg_bad_def)
  from T h v have 2: "snd (snd (Provision demo cfg_bad)) = None" by blast
  have f: "filter (isValidServerAddr demo) (Servers cfg_bad) = [''10.0.0.1:1812'']"
    by (simp add: demo_def demo_SplitHostPort_def cfg_bad_def isValidServerAddr_def Let_def)
  from T 2 have "Servers (fst (Provision demo cfg_bad)) = filter (isValidServerAddr demo) (Servers cfg_bad)"
    by blast
  then have 3: "Servers (fst (Provision demo cfg_bad)) = [''10.0.0.1:1812'']" by (simp only: f)
  show ?thesis using 1 2 3 by blast
qed

text \<open>
  The claim as stated, that \<open>Provision\<close> too rejects the configuration, fails:
  with one valid address beside \<open>bad\<close> it prints that it skipped \<open>bad\<close> and returns nil.
\<close>

theorem invalid_server_address_counterexample:
  "\<not> splits demo ''bad'' \<and> ''bad'' \<in> set (Servers cfg_bad)
   \<and> Provision demo cfg_bad =
       (\<lparr>Servers = [''10.0.0.1:1812''], Secret = ''sharedsecret'', Realm = '''', Timeout = ''3s'',
          CacheTTL = ''0s'', cache = None\<rparr>,
        [''[caddy-radius] skipped invalid RADIUS server: bad'' @ [CHR 0x0A]], None)"
  by (simp add: splits_def demo_def demo_SplitHostPort_def demo_ParseDuration_def cfg_bad_def
      Provision_def isValidServerAddr_def Let_def)

section \<open>A timeout that does not parse\<close>

lemma checkRadiusConcurrent_calls:
  assumes "Servers r \<noteq> []" and "UserName_SetString L username = None"
    and "UserPassword_SetString L (Secret r) password = None"
  shows "snd (checkRadiusConcurrent L r W username password) =
           map (\<lambda>s. \<lparr>srv = s, deadline = fst (ParseDuration L (Timeout r)),
                       sent = \<lparr>pkt_Code = CodeAccessRequest, pkt_Secret = Secret r,
                                pkt_UserName = username, pkt_UserPassword = password\<rparr>\<rparr>) (Servers r)"
  using assms by (simp add: checkRadiusConcurrent_def Let_def)

lemma checkRadiusConcurrent_fan_out:
  assumes "Servers r \<noteq> []" and "UserName_SetString L username = None"
    and "UserPassword_SetString L (Secret r) password = None"
  shows "map srv (snd (checkRadiusConcurrent L r W username password)) = Servers r"
  by (simp add: checkRadiusConcurrent_calls[OF assms] comp_def)

lemma checkRadiusConcurrent_nil_built:
  assumes "snd (fst (checkRadiusConcurrent L r W username password)) = None"
  shows "Servers r \<noteq> [] \<and> UserName_SetString L username = None
         \<and> UserPassword_SetString L (Secret r) password = None"
  using assms by (auto simp: checkRadiusConcurrent_def split: if_splits option.splits)

lemma checkRadiusConcurrent_cache:
  "checkRadiusConcurrent L (r\<lparr>cache := x\<rparr>) W username password =
   checkRadiusConcurrent L r W username password"
  by (simp add: checkRadiusConcurrent_def spawned_def Let_def split: option.splits)

lemma issue_lib:
  "Code_String L' = Code_String L \<Longrightarrow> issue L' = issue L"
  by (auto simp: issue_def fun_eq_iff split: option.splits)

lemma rangeIssues_lib:
  assumes "Code_String L' = Code_String L"
  shows "rangeIssues L' m ks msg = rangeIssues L m ks msg"
  by (induction ks arbitrary: msg) (simp_all add: issue_lib[OF assms] split: option.splits)

lemma checkRadiusConcurrent_ParseDuration_err:
  "checkRadiusConcurrent (L\<lparr>ParseDuration := \<lambda>s. (fst (ParseDuration L s), None)\<rparr>) r W username password
     = checkRadiusConcurrent L r W username password"
proof -
  have "rangeIssues (L\<lparr>ParseDuration := \<lambda>s. (fst (ParseDuration L s), None)\<rparr>) m ks msg
        = rangeIssues L m ks msg" for m ks msg
    by (rule rangeIssues_lib) simp
  then show ?thesis
    by (simp add: checkRadiusConcurrent_def Let_def split: option.splits)
qed

lemma isValidServerAddr_lib:
  "isValidServerAddr (L\<lparr>ParseDuration := f\<rparr>) = isValidServerAddr L"
  by (simp add: isValidServerAddr_def fun_eq_iff)

lemma validate_lib: "validate (L\<lparr>ParseDuration := f\<rparr>) ss = validate L ss"
  by (induction ss) (simp_all add: isValidServerAddr_lib)

lemma Provision_ParseDuration:
  assumes "f (ttl_string r) = ParseDuration L (ttl_string r)"
  shows "Provision (L\<lparr>ParseDuration := f\<rparr>) r = Provision L r"
  using assms
  by (cases "CacheTTL r = []") (simp_all add: Provision_def Let_def validate_lib ttl_string_def)

text \<open>
  C10. \<open>checkRadiusConcurrent\<close> never reads the error of \<open>time.ParseDuration\<close>: it
  returns what it would return had the parse succeeded with the same duration. So when
  \<open>Timeout\<close> does not parse (\<open>time.ParseDuration\<close> then returns the zero duration
  beside the error) and the packet is built, every configured server is still dispatched,
  each with the timeout 0, and no error is returned for the parse. \<open>Provision\<close> leaves
  a non-empty \<open>Timeout\<close> as it is and puts \<open>3s\<close> for an empty one (once the checks
  of servers and secret have passed); whatever \<open>time.ParseDuration\<close> makes of a non-empty
  \<open>Timeout\<close> changes nothing in what \<open>Provision\<close> does (unless the same string is
  also the cache TTL, which it does parse).
\<close>

theorem unparseable_timeout:
  "checkRadiusConcurrent (L\<lparr>ParseDuration := \<lambda>s. (fst (ParseDuration L s), None)\<rparr>) r W username password
     = checkRadiusConcurrent L r W username password
   \<and> (ParseDuration L (Timeout r) = (0, Some e) \<and> Servers r \<noteq> []
        \<and> UserName_SetString L username = None \<and> UserPassword_SetString L (Secret r) password = None
      \<longrightarrow> map srv (snd (checkRadiusConcurrent L r W username password)) = Servers r
          \<and> (\<forall>c\<in>set (snd (checkRadiusConcurrent L r W username password)). deadline c = 0))
   \<and> Timeout (fst (Provision L r)) =
        (if Timeout r = '''' \<and> Servers r \<noteq> [] \<and> Secret r \<noteq> '''' then ''3s'' else Timeout r)
   \<and> (Timeout r \<noteq> '''' \<and> Timeout r \<noteq> ttl_string r
      \<longrightarrow> Provision (L\<lparr>ParseDuration := (ParseDuration L)(Timeout r := x)\<rparr>) r = Provision L r)"
proof (intro conjI impI)
  show "checkRadiusConcurrent (L\<lparr>ParseDuration := \<lambda>s. (fst (ParseDuration L s), None)\<rparr>) r W username password
     = checkRadiusConcurrent L r W username password"
    by (rule checkRadiusConcurrent_ParseDuration_err)
next
  assume a: "ParseDuration L (Timeout r) = (0, Some e) \<and> Servers r \<noteq> []
        \<and> UserName_SetString L username = None \<and> UserPassword_SetString L (Secret r) password = None"
  then show "map srv (snd (checkRadiusConcurrent L r W username password)) = Servers r"
    by (simp add: checkRadiusConcurrent_fan_out)
  from a have "snd (checkRadiusConcurrent L r W username password) =
           map (\<lambda>s. \<lparr>srv = s, deadline = fst (ParseDuration L (Timeout r)),
                       sent = \<lparr>pkt_Code = CodeAccessRequest, pkt_Secret = Secret r,
                                pkt_UserName = username, pkt_UserPassword = password\<rparr>\<rparr>) (Servers r)"
    by (simp add: checkRadiusConcurrent_calls)
  with a show "\<forall>c\<in>set (snd (checkRadiusConcurrent L r W username password)). deadline c = 0"
    by auto
next
  show "Timeout (fst (Provision L r)) =
        (if Timeout r = '''' \<and> Servers r \<noteq> [] \<and> Secret r \<noteq> '''' then ''3s'' else Timeout r)"
    by (simp add: Provision_def Let_def split_def split: option.splits)
next
  assume "Timeout r \<noteq> '''' \<and> Timeout r \<noteq> ttl_string r"
  then have "ttl_string r \<noteq> Timeout r" by auto
  then have "((ParseDuration L)(Timeout r := x)) (ttl_string r) = ParseDuration L (ttl_string r)"
    by simp
  then show "Provision (L\<lparr>ParseDuration := (ParseDuration L)(Timeout r := x)\<rparr>) r = Provision L r"
    by (rule Provision_ParseDuration)
qed

text \<open>
  The timeout \<open>abc\<close>: A times out, B accepts. Both are dispatched, with the timeout 0,
  and the verdict is \<open>(true, nil)\<close>; \<open>Provision\<close> returns nil, keeps \<open>abc\<close>, and would
  do the same if \<open>abc\<close> parsed as three seconds.
\<close>

theorem unparseable_timeout_witness:
  "fst (checkRadiusConcurrent demo cfg_abc (world_of timed_out (Response CodeAccessAccept)) ''alice'' ''pw'')
     = (True, None)
   \<and> map srv (snd (checkRadiusConcurrent demo cfg_abc (world_of timed_out (Response CodeAccessAccept))
                     ''alice'' ''pw'')) = [''10.0.0.1:1812'', ''10.0.0.2:1812'']
   \<and> map deadline (snd (checkRadiusConcurrent demo cfg_abc (world_of timed_out (Response CodeAccessAccept))
                          ''alice'' ''pw'')) = [0, 0]
   \<and> Provision demo cfg_abc =
       (\<lparr>Servers = [''10.0.0.1:1812'', ''10.0.0.2:1812''], Secret = ''sharedsecret'', Realm = '''',
          Timeout = ''abc'', CacheTTL = ''0s'', cache = None\<rparr>, [], None)
   \<and> Provision (demo\<lparr>ParseDuration := (ParseDuration demo)(''abc'' := (3000000000, None))\<rparr>) cfg_abc
       = Provision demo cfg_abc"
proof -
  let ?W = "world_of timed_out (Response CodeAccessAccept)"
  let ?e = "Error (''time: invalid duration '' @ [CHR 0x22] @ ''abc'' @ [CHR 0x22])"
  let ?calls = "snd (checkRadiusConcurrent demo cfg_abc ?W ''alice'' ''pw'')"
  note T = unparseable_timeout [where L = demo and r = cfg_abc and W = ?W and username = "''alice''"
      and password = "''pw''" and e = ?e and x = "(3000000000, None)"]
  have p: "ParseDuration demo (Timeout cfg_abc) = (0, Some ?e)"
    by (simp add: demo_def demo_ParseDuration_def cfg_abc_def)
  have s: "Servers cfg_abc \<noteq> []" "UserName_SetString demo ''alice'' = None"
    "UserPassword_SetString demo (Secret cfg_abc) ''pw'' = None"
    by (simp_all add: demo_def cfg_abc_def)
  have n: "Timeout cfg_abc \<noteq> ''''" "Timeout cfg_abc \<noteq> ttl_string cfg_abc"
    by (simp_all add: cfg_abc_def ttl_string_def)
  from T p s have d1: "map srv ?calls = Servers cfg_abc" by blast
  from T p s have d2: "\<forall>c\<in>set ?calls. deadline c = 0" by blast
  from d1 have len: "length ?calls = 2"
    by (metis length_map cfg_abc_def HTTPRadiusAuth.select_convs(1) length_Cons list.size(3)
        numeral_2_eq_2)
  from d2 have "map deadline ?calls = map (\<lambda>c. 0) ?calls" by simp
  also have "\<dots> = replicate (length ?calls) 0" by (simp add: map_replicate_const)
  finally have d3: "map deadline ?calls = [0, 0]" using len by (simp add: numeral_2_eq_2)
  from T n have inv: "Provision (demo\<lparr>ParseDuration := (ParseDuration demo)(Timeout cfg_abc := (3000000000, None))\<rparr>) cfg_abc
       = Provision demo cfg_abc" by blast
  have v: "fst (checkRadiusConcurrent demo cfg_abc ?W ''alice'' ''pw'') = (True, None)"
    by (simp add: checkRadiusConcurrent_def cfg_abc_def demo_def demo_ParseDuration_def
      world_of_def timed_out_def spawned_def goroutine_def receive_def Let_def
      CodeAccessAccept_def CodeAccessReject_def enumerate_eq_zip upt_rec)
  have q: "Provision demo cfg_abc =
       (\<lparr>Servers = [''10.0.0.1:1812'', ''10.0.0.2:1812''], Secret = ''sharedsecret'', Realm = '''',
          Timeout = ''abc'', CacheTTL = ''0s'', cache = None\<rparr>, [], None)"
    by (simp add: demo_def demo_SplitHostPort_def demo_ParseDuration_def cfg_abc_def
      Provision_def isValidServerAddr_def Let_def)
  have t: "Timeout cfg_abc = ''abc''" by (simp add: cfg_abc_def)
  show ?thesis using v d1 d3 q inv by (simp add: cfg_abc_def)
qed

section \<open>Authenticate and the cache\<close>

lemma cache_Get_SetDefault:
  "cache_Get (cache_SetDefault c t k v) now k =
     (if now > t + defaultExpiration c then None else Some v)"
  by (simp add: cache_Get_def cache_SetDefault_def)


lemma Authenticate_miss:
  assumes "(case cache r of None \<Rightarrow> None
            | Some c \<Rightarrow> cache_Get c (now_Get W) (cacheKey user pass)) = None"
  shows "exchanged (Authenticate L r W (Some (user, pass))) =
           snd (checkRadiusConcurrent L r W user pass)"
    and "cache_after (Authenticate L r W (Some (user, pass))) =
           (case snd (fst (checkRadiusConcurrent L r W user pass)) of
              Some e \<Rightarrow> cache r
            | None \<Rightarrow>
                (case cache r of
                   None \<Rightarrow> None
                 | Some c \<Rightarrow> Some (cache_SetDefault c (now_Set W) (cacheKey user pass)
                                    (fst (fst (checkRadiusConcurrent L r W user pass))))))"
    and "ret (Authenticate L r W (Some (user, pass))) =
           (if fst (fst (checkRadiusConcurrent L r W user pass))
               \<and> snd (fst (checkRadiusConcurrent L r W user pass)) = None
            then (user, True, None) else ('''', False, None))"
proof -
  obtain ok e calls where c: "checkRadiusConcurrent L r W user pass = ((ok, e), calls)"
    by (metis surj_pair)
  show "exchanged (Authenticate L r W (Some (user, pass))) =
           snd (checkRadiusConcurrent L r W user pass)"
    using assms c
    by (cases e) (simp_all add: Authenticate_def promptForCredentials_def Let_def split: option.splits)
  show "cache_after (Authenticate L r W (Some (user, pass))) =
           (case snd (fst (checkRadiusConcurrent L r W user pass)) of
              Some e \<Rightarrow> cache r
            | None \<Rightarrow>
                (case cache r of
                   None \<Rightarrow> None
                 | Some c \<Rightarrow> Some (cache_SetDefault c (now_Set W) (cacheKey user pass)
                                    (fst (fst (checkRadiusConcurrent L r W user pass))))))"
    using assms c
    by (cases e) (simp_all add: Authenticate_def promptForCredentials_def Let_def split: option.splits)
  show "ret (Authenticate L r W (Some (user, pass))) =
           (if fst (fst (checkRadiusConcurrent L r W user pass))
               \<and> snd (fst (checkRadiusConcurrent L r W user pass)) = None
            then (user, True, None) else ('''', False, None))"
    using assms c
    by (cases e) (simp_all add: Authenticate_def promptForCredentials_def Let_def split: option.splits)
qed

lemma Authenticate_hit:
  assumes "cache r = Some c" and "cache_Get c (now_Get W) (cacheKey user pass) = Some v"
  shows "exchanged (Authenticate L r W (Some (user, pass))) = []"
    and "cache_after (Authenticate L r W (Some (user, pass))) = cache r"
    and "ret (Authenticate L r W (Some (user, pass))) =
           (if v then (user, True, None) else ('''', False, None))"
  using assms by (simp_all add: Authenticate_def promptForCredentials_def Let_def)



lemma demo_cfg_eval:
  "cache cfg = Some (cache_New 60000000000)"
  "cache_Get (cache_New 60000000000) 0 (cacheKey ''alice'' ''pw'') = None"
  "Servers cfg \<noteq> []"
  "Servers cfg = [''10.0.0.1:1812'', ''10.0.0.2:1812'']"
  by (simp_all add: cfg_def cache_Get_def cache_New_def)


lemma demo_accepted:
  "fst (checkRadiusConcurrent demo cfg (world_of timed_out (Response CodeAccessAccept)) ''alice'' ''pw'')
     = (True, None)"
  by (simp add: checkRadiusConcurrent_def cfg_def demo_def demo_ParseDuration_def
      world_of_def timed_out_def spawned_def goroutine_def receive_def Let_def
      CodeAccessAccept_def CodeAccessReject_def enumerate_eq_zip upt_rec)




section \<open>A cached verdict\<close>

text \<open>
  C5. With the cache enabled, let a call find no fresh entry and
  \<open>checkRadiusConcurrent\<close> return a boolean with a nil error, so that the call stores it
  at the time \<open>now_Set\<close>. A second call with the same credentials that looks the key up no
  later than that time plus the TTL returns what the first call returned, the same boolean,
  and makes no call of \<open>radius.Exchange\<close>. A second call that looks the key up later than
  that finds no entry and dispatches to every configured server again.
\<close>

theorem Authenticate_cached_verdict:
  assumes "cache r = Some c"
    and "cache_Get c (now_Get W1) (cacheKey user pass) = None"
    and "snd (fst (checkRadiusConcurrent L r W1 user pass)) = None"
  shows "(let req = Some (user, pass);
              first = Authenticate L r W1 req;
              second = Authenticate L (r\<lparr>cache := cache_after first\<rparr>) W2 req
          in (now_Get W2 \<le> now_Set W1 + defaultExpiration c \<longrightarrow>
                ret second = ret first
                \<and> fst (snd (ret second)) = fst (fst (checkRadiusConcurrent L r W1 user pass))
                \<and> exchanged second = [])
           \<and> (now_Get W2 > now_Set W1 + defaultExpiration c \<longrightarrow>
                exchanged second = snd (checkRadiusConcurrent L r W2 user pass)
                \<and> map srv (exchanged second) = Servers r))"
proof -
  let ?req = "Some (user, pass)"
  let ?ok = "fst (fst (checkRadiusConcurrent L r W1 user pass))"
  let ?c1 = "cache_SetDefault c (now_Set W1) (cacheKey user pass) ?ok"
  let ?r1 = "r\<lparr>cache := cache_after (Authenticate L r W1 ?req)\<rparr>"
  have miss1: "(case cache r of None \<Rightarrow> None
               | Some c \<Rightarrow> cache_Get c (now_Get W1) (cacheKey user pass)) = None"
    using assms(1,2) by simp
  have stored: "cache_after (Authenticate L r W1 ?req) = Some ?c1"
    using Authenticate_miss(2)[OF miss1, of L] assms(1,3) by simp
  then have c1: "cache ?r1 = Some ?c1" by simp
  have ret1: "ret (Authenticate L r W1 ?req) = (if ?ok then (user, True, None) else ('''', False, None))"
    using Authenticate_miss(3)[OF miss1, of L] assms(3) by simp
  have built: "Servers r \<noteq> [] \<and> UserName_SetString L user = None
               \<and> UserPassword_SetString L (Secret r) pass = None"
    using assms(3) by (rule checkRadiusConcurrent_nil_built)
  have within: "ret (Authenticate L ?r1 W2 ?req) = ret (Authenticate L r W1 ?req)
      \<and> fst (snd (ret (Authenticate L ?r1 W2 ?req))) = ?ok
      \<and> exchanged (Authenticate L ?r1 W2 ?req) = []"
    if le: "now_Get W2 \<le> now_Set W1 + defaultExpiration c"
  proof -
    have hit: "cache_Get ?c1 (now_Get W2) (cacheKey user pass) = Some ?ok"
      using le by (simp add: cache_Get_SetDefault)
    show ?thesis
      using Authenticate_hit(1)[OF c1 hit, of L] Authenticate_hit(3)[OF c1 hit, of L] ret1
      by simp
  qed
  have after: "exchanged (Authenticate L ?r1 W2 ?req) = snd (checkRadiusConcurrent L r W2 user pass)
      \<and> map srv (exchanged (Authenticate L ?r1 W2 ?req)) = Servers r"
    if gt: "now_Get W2 > now_Set W1 + defaultExpiration c"
  proof -
    have "cache_Get ?c1 (now_Get W2) (cacheKey user pass) = None"
      using gt by (simp add: cache_Get_SetDefault)
    then have miss2: "(case cache ?r1 of None \<Rightarrow> None
               | Some c \<Rightarrow> cache_Get c (now_Get W2) (cacheKey user pass)) = None"
      using c1 by simp
    have e: "exchanged (Authenticate L ?r1 W2 ?req) = snd (checkRadiusConcurrent L r W2 user pass)"
      using Authenticate_miss(1)[OF miss2, of L] by (simp add: checkRadiusConcurrent_cache)
    then show ?thesis using built by (simp add: checkRadiusConcurrent_fan_out)
  qed
  show ?thesis unfolding Let_def using within after by blast
qed

text \<open>
  B accepts and the verdict is stored at time 1 for one minute. A call at time 30 (in
  seconds; the clock counts nanoseconds) returns the same value and exchanges nothing; a
  call at time 62 dispatches to both servers.
\<close>

theorem Authenticate_cached_verdict_witness:
  "ret (Authenticate demo
          (cfg\<lparr>cache := cache_after (Authenticate demo cfg (world_of timed_out (Response CodeAccessAccept))
                                       (Some (''alice'', ''pw'')))\<rparr>)
          ((world_of timed_out timed_out)\<lparr>now_Get := 30000000000\<rparr>) (Some (''alice'', ''pw'')))
     = (''alice'', True, None)
   \<and> exchanged (Authenticate demo
          (cfg\<lparr>cache := cache_after (Authenticate demo cfg (world_of timed_out (Response CodeAccessAccept))
                                       (Some (''alice'', ''pw'')))\<rparr>)
          ((world_of timed_out timed_out)\<lparr>now_Get := 30000000000\<rparr>) (Some (''alice'', ''pw'')))
     = []
   \<and> map srv (exchanged (Authenticate demo
          (cfg\<lparr>cache := cache_after (Authenticate demo cfg (world_of timed_out (Response CodeAccessAccept))
                                       (Some (''alice'', ''pw'')))\<rparr>)
          ((world_of timed_out timed_out)\<lparr>now_Get := 62000000000\<rparr>) (Some (''alice'', ''pw''))))
     = [''10.0.0.1:1812'', ''10.0.0.2:1812'']"
proof -
  let ?W1 = "world_of timed_out (Response CodeAccessAccept)"
  have t: "now_Get ?W1 = 0" "now_Set ?W1 = 1" by (simp_all add: world_of_def)
  have m: "cache_Get (cache_New 60000000000) (now_Get ?W1) (cacheKey ''alice'' ''pw'') = None"
    using demo_cfg_eval(2) t(1) by simp
  have n: "snd (fst (checkRadiusConcurrent demo cfg ?W1 ''alice'' ''pw'')) = None"
    by (simp add: demo_accepted)
  have ttl: "defaultExpiration (cache_New 60000000000) = 60000000000" by (simp add: cache_New_def)
  note T = Authenticate_cached_verdict [OF demo_cfg_eval(1) m n, unfolded Let_def]
  have a: "now_Get ((world_of timed_out timed_out)\<lparr>now_Get := 30000000000\<rparr>)
            \<le> now_Set ?W1 + defaultExpiration (cache_New 60000000000)"
    by (simp add: t ttl)
  have b: "now_Get ((world_of timed_out timed_out)\<lparr>now_Get := 62000000000\<rparr>)
            > now_Set ?W1 + defaultExpiration (cache_New 60000000000)"
    by (simp add: t ttl)
  have r1: "ret (Authenticate demo cfg ?W1 (Some (''alice'', ''pw''))) = (''alice'', True, None)"
    using Authenticate_miss(3)[where r = cfg and W = ?W1 and user = "''alice''" and pass = "''pw''"
        and L = demo] m demo_accepted
    by (simp add: demo_cfg_eval(1))
  from T [where ?W2.0 = "(world_of timed_out timed_out)\<lparr>now_Get := 30000000000\<rparr>"] a r1
  have 1: "ret (Authenticate demo
          (cfg\<lparr>cache := cache_after (Authenticate demo cfg ?W1 (Some (''alice'', ''pw'')))\<rparr>)
          ((world_of timed_out timed_out)\<lparr>now_Get := 30000000000\<rparr>) (Some (''alice'', ''pw'')))
     = (''alice'', True, None)
    \<and> exchanged (Authenticate demo
          (cfg\<lparr>cache := cache_after (Authenticate demo cfg ?W1 (Some (''alice'', ''pw'')))\<rparr>)
          ((world_of timed_out timed_out)\<lparr>now_Get := 30000000000\<rparr>) (Some (''alice'', ''pw''))) = []"
    by metis
  from T [where ?W2.0 = "(world_of timed_out timed_out)\<lparr>now_Get := 62000000000\<rparr>"] b
  have 2: "map srv (exchanged (Authenticate demo
          (cfg\<lparr>cache := cache_after (Authenticate demo cfg ?W1 (Some (''alice'', ''pw'')))\<rparr>)
          ((world_of timed_out timed_out)\<lparr>now_Get := 62000000000\<rparr>) (Some (''alice'', ''pw''))))
     = Servers cfg"
    by blast
  show ?thesis using 1 2 by (simp add: demo_cfg_eval(4))
qed

section \<open>The cache disabled\<close>







end
